theory Spec2Isabelle
  imports Main "HOL-Library.Multiset"
begin

section \<open>The history screen of the order application\<close>

text \<open>
  The development follows \<^verbatim>\<open>src/app/(tabs)/history.tsx\<close>: one React component,
  \<^verbatim>\<open>HistoryTabScreen\<close>, with two pieces of component state (the fetched transactions and a
  loading flag), a loader, two handlers, and two values derived on every render (the date
  groups and the sorted date keys).
\<close>

subsection \<open>Data model\<close>

text \<open>
  The type \<^verbatim>\<open>Transaction\<close> is imported from \<^verbatim>\<open>@/data/mockData\<close>. The records below hold
  the fields the component reads: \<^verbatim>\<open>transaction_id\<close>, \<^verbatim>\<open>date\<close> (a string, handed to
  \<^verbatim>\<open>new Date\<close> and to \<^verbatim>\<open>formatDate(dateString: string)\<close>), \<^verbatim>\<open>total\<close>, \<^verbatim>\<open>items\<close>
  (\<^verbatim>\<open>name\<close>, \<^verbatim>\<open>quantity\<close>, \<^verbatim>\<open>price\<close>), \<^verbatim>\<open>has_good_receipt\<close>, \<^verbatim>\<open>good_receipt_total\<close> and the
  optional \<^verbatim>\<open>loan_id\<close>. Amounts are whole numbers of rupiah; the component only copies and
  prints them, so they are integers here.
\<close>

record cart_item =
  name :: string
  quantity :: int
  price :: int

record transaction =
  transaction_id :: string
  date :: string
  total :: int
  items :: "cart_item list"
  has_good_receipt :: bool
  good_receipt_total :: "int option"
  loan_id :: "string option"

subsection \<open>The platform's date functions\<close>

text \<open>
  The component calls the JavaScript \<^verbatim>\<open>Date\<close> object in two places. Both depend on the
  engine and on the device's time zone, so they are parameters of the model:
  \<^item> \<open>toLocaleDateString_enCA rt s\<close> is \<^verbatim>\<open>new Date(s).toLocaleDateString('en-CA')\<close>;
  \<^item> \<open>getTime rt s\<close> is \<^verbatim>\<open>new Date(s).getTime()\<close>, with \<open>None\<close> for \<^verbatim>\<open>NaN\<close> (the time
    value of an invalid date). Time values are integers of magnitude at most 8.64e15, so
    their differences are exact in double precision.
\<close>

record runtime =
  toLocaleDateString_enCA :: "string \<Rightarrow> string"
  getTime :: "string \<Rightarrow> int option"

subsection \<open>Grouping by date\<close>

text \<open>
  \<^verbatim>\<open>groupedTransactions\<close> is a \<^verbatim>\<open>reduce\<close> over the transactions into an object used as a
  dictionary from date strings to arrays. The object is an association list in insertion
  order, which is the order \<^verbatim>\<open>Object.keys\<close> reports for property names that are not array
  indices; the names here are results of \<^verbatim>\<open>toLocaleDateString\<close> (a formatted date or
  \<^verbatim>\<open>Invalid Date\<close>), never an array index and never a property inherited from
  \<^verbatim>\<open>Object.prototype\<close>.

  \<open>pushToGroup\<close> is the body of the reducer:
  \<^verbatim>\<open>if (!groups[date]) { groups[date] = []; } groups[date].push(transaction);\<close>
\<close>

type_synonym groups = "(string \<times> transaction list) list"

fun pushToGroup :: "string \<Rightarrow> transaction \<Rightarrow> groups \<Rightarrow> groups" where
  "pushToGroup d t [] = [(d, [t])]"
| "pushToGroup d t ((k, g) # rest) =
     (if k = d then (k, g @ [t]) # rest else (k, g) # pushToGroup d t rest)"

definition groupedTransactions :: "runtime \<Rightarrow> transaction list \<Rightarrow> groups" where
  "groupedTransactions rt txs =
     foldl (\<lambda>groups t. pushToGroup (toLocaleDateString_enCA rt (date t)) t groups) [] txs"

subsection \<open>Sorting the date keys\<close>

text \<open>
  The comparator of \<^verbatim>\<open>sortedDates\<close> is
  \<^verbatim>\<open>(a, b) => new Date(b + 'T00:00:00').getTime() - new Date(a + 'T00:00:00').getTime()\<close>.
  A difference with a \<^verbatim>\<open>NaN\<close> operand is \<^verbatim>\<open>NaN\<close>.
\<close>

definition compareDates :: "runtime \<Rightarrow> string \<Rightarrow> string \<Rightarrow> int option" where
  "compareDates rt a b =
     (case getTime rt (b @ ''T00:00:00'') of
        None \<Rightarrow> None
      | Some tb \<Rightarrow>
          (case getTime rt (a @ ''T00:00:00'') of
             None \<Rightarrow> None
           | Some ta \<Rightarrow> Some (tb - ta)))"

text \<open>
  \<^verbatim>\<open>Array.prototype.sort\<close> reads a \<^verbatim>\<open>NaN\<close> from the comparator as \<open>+0\<close>. The language
  fixes the result of the sort for a consistent comparator: the elements in comparator
  order, equal elements in their original order. The model is the stable insertion sort,
  which computes that list.
\<close>

definition sortCompare :: "('a \<Rightarrow> 'a \<Rightarrow> int option) \<Rightarrow> 'a \<Rightarrow> 'a \<Rightarrow> int" where
  "sortCompare cmp x y = (case cmp x y of None \<Rightarrow> 0 | Some v \<Rightarrow> v)"

fun insertBy :: "('a \<Rightarrow> 'a \<Rightarrow> int option) \<Rightarrow> 'a \<Rightarrow> 'a list \<Rightarrow> 'a list" where
  "insertBy cmp x [] = [x]"
| "insertBy cmp x (y # ys) =
     (if sortCompare cmp x y \<le> 0 then x # y # ys else y # insertBy cmp x ys)"

fun arraySort :: "('a \<Rightarrow> 'a \<Rightarrow> int option) \<Rightarrow> 'a list \<Rightarrow> 'a list" where
  "arraySort cmp [] = []"
| "arraySort cmp (x # xs) = insertBy cmp x (arraySort cmp xs)"

definition objectKeys :: "groups \<Rightarrow> string list" where
  "objectKeys groups = map fst groups"

definition sortedDates :: "runtime \<Rightarrow> transaction list \<Rightarrow> string list" where
  "sortedDates rt txs = arraySort (compareDates rt) (objectKeys (groupedTransactions rt txs))"

text \<open>
  Chronological order of two keys, as the comparator sees it: \<open>a\<close> is later than \<open>b\<close> when
  both denote a time and the local midnight of \<open>a\<close> is the greater one.
\<close>

definition laterThan :: "runtime \<Rightarrow> string \<Rightarrow> string \<Rightarrow> bool" where
  "laterThan rt a b =
     (case getTime rt (a @ ''T00:00:00'') of
        None \<Rightarrow> False
      | Some ta \<Rightarrow>
          (case getTime rt (b @ ''T00:00:00'') of
             None \<Rightarrow> False
           | Some tb \<Rightarrow> tb < ta))"

text \<open>The time of a key's local midnight, for keys that have one.\<close>

definition midnight :: "runtime \<Rightarrow> string \<Rightarrow> int" where
  "midnight rt k = (case getTime rt (k @ ''T00:00:00'') of None \<Rightarrow> 0 | Some t \<Rightarrow> t)"

subsection \<open>A runtime to run the model on\<close>

text \<open>
  \<open>utcRuntime\<close> is a device whose local zone is UTC, for date strings of the two ISO forms
  \<^verbatim>\<open>YYYY-MM-DD\<close> and \<^verbatim>\<open>YYYY-MM-DDTHH:mm:ss\<close> with a four-digit year from 1000 on and a day
  that exists in its month. There the local calendar date is the date part of the string,
  and the time value counts milliseconds from 1970-01-01. Every other string is read as an
  invalid date, as JavaScript reads the empty string: \<^verbatim>\<open>toLocaleDateString\<close> then gives
  \<^verbatim>\<open>Invalid Date\<close> and \<^verbatim>\<open>getTime\<close> gives \<^verbatim>\<open>NaN\<close>. The examples below use only strings of
  the two forms and the empty string.
\<close>

definition digitValue :: "char \<Rightarrow> int option" where
  "digitValue c =
     (let n = (of_char c :: nat) in if 48 \<le> n \<and> n \<le> 57 then Some (int n - 48) else None)"

fun digitsValue :: "int \<Rightarrow> string \<Rightarrow> int option" where
  "digitsValue acc [] = Some acc"
| "digitsValue acc (c # cs) =
     (case digitValue c of None \<Rightarrow> None | Some v \<Rightarrow> digitsValue (10 * acc + v) cs)"

definition isLeapYear :: "int \<Rightarrow> bool" where
  "isLeapYear y = (y mod 4 = 0 \<and> (y mod 100 \<noteq> 0 \<or> y mod 400 = 0))"

definition daysInMonth :: "int \<Rightarrow> int \<Rightarrow> int" where
  "daysInMonth y m =
     (if m = 2 then (if isLeapYear y then 29 else 28)
      else if m = 4 \<or> m = 6 \<or> m = 9 \<or> m = 11 then 30 else 31)"

definition daysFromCivil :: "int \<Rightarrow> int \<Rightarrow> int \<Rightarrow> int" where
  "daysFromCivil y m d =
     (let y' = (if m \<le> 2 then y - 1 else y);
          era = y' div 400;
          yoe = y' - era * 400;
          doy = (153 * (if m > 2 then m - 3 else m + 9) + 2) div 5 + d - 1;
          doe = yoe * 365 + yoe div 4 - yoe div 100 + doy
      in era * 146097 + doe - 719468)"

definition parseDatePart :: "string \<Rightarrow> int option" where
  "parseDatePart s =
     (if length s = 10 \<and> s ! 4 = CHR ''-'' \<and> s ! 7 = CHR ''-'' then
        (case digitsValue 0 (take 4 s) of
           None \<Rightarrow> None
         | Some y \<Rightarrow>
             (case digitsValue 0 (take 2 (drop 5 s)) of
                None \<Rightarrow> None
              | Some m \<Rightarrow>
                  (case digitsValue 0 (drop 8 s) of
                     None \<Rightarrow> None
                   | Some d \<Rightarrow>
                       if 1000 \<le> y \<and> 1 \<le> m \<and> m \<le> 12 \<and> 1 \<le> d \<and> d \<le> daysInMonth y m
                       then Some (daysFromCivil y m d * 86400000)
                       else None)))
      else None)"

definition parseTimePart :: "string \<Rightarrow> int option" where
  "parseTimePart s =
     (if s = [] then Some 0
      else if length s = 9 \<and> s ! 0 = CHR ''T'' \<and> s ! 3 = CHR '':'' \<and> s ! 6 = CHR '':'' then
        (case digitsValue 0 (take 2 (drop 1 s)) of
           None \<Rightarrow> None
         | Some h \<Rightarrow>
             (case digitsValue 0 (take 2 (drop 4 s)) of
                None \<Rightarrow> None
              | Some mi \<Rightarrow>
                  (case digitsValue 0 (drop 7 s) of
                     None \<Rightarrow> None
                   | Some sec \<Rightarrow>
                       if h < 24 \<and> mi < 60 \<and> sec < 60
                       then Some ((h * 3600 + mi * 60 + sec) * 1000)
                       else None)))
      else None)"

definition utcGetTime :: "string \<Rightarrow> int option" where
  "utcGetTime s =
     (case parseDatePart (take 10 s) of
        None \<Rightarrow> None
      | Some day \<Rightarrow>
          (case parseTimePart (drop 10 s) of
             None \<Rightarrow> None
           | Some ms \<Rightarrow> Some (day + ms)))"

definition utcLocaleDateString :: "string \<Rightarrow> string" where
  "utcLocaleDateString s =
     (case utcGetTime s of None \<Rightarrow> ''Invalid Date'' | Some t \<Rightarrow> take 10 s)"

definition utcRuntime :: runtime where
  "utcRuntime = \<lparr> toLocaleDateString_enCA = utcLocaleDateString, getTime = utcGetTime \<rparr>"

subsection \<open>Calendar dates and their keys\<close>






subsection \<open>Component state and collaborators\<close>

text \<open>
  One record holds what the component owns and what it acts on:
  \<^item> \<open>transactions\<close> and \<open>loading\<close> are the two \<^verbatim>\<open>useState\<close> cells;
  \<^item> \<open>stored\<close> is the content of the storage collaborator; \<open>getFault\<close> and \<open>saveFault\<close> say
    whether its next read or write rejects, and with which error;
  \<^item> \<open>saveCalls\<close>, \<open>consoleErrors\<close>, \<open>alerts\<close> and \<open>pushed\<close> log the calls the component
    makes to \<^verbatim>\<open>saveTransaction\<close>, \<^verbatim>\<open>console.error\<close>, \<^verbatim>\<open>Alert.alert\<close> and \<^verbatim>\<open>router.push\<close>,
    oldest first.
  A text shown to the user is written as its translation key, the argument of \<^verbatim>\<open>t\<close>.
  The one-second \<^verbatim>\<open>setTimeout\<close> before the save has no effect on any of these and is left
  out; every handler runs to its end before the next event.
\<close>

record alert =
  title :: string
  message :: string
  params :: "(string \<times> string) list"
  buttons :: "string list"

record history =
  transactions :: "transaction list"
  loading :: bool
  stored :: "transaction list"
  getFault :: "string option"
  saveFault :: "string option"
  saveCalls :: "transaction list"
  consoleErrors :: "(string \<times> string) list"
  alerts :: "alert list"
  pushed :: "string list"

text \<open>The component as mounted: \<^verbatim>\<open>useState([])\<close>, \<^verbatim>\<open>useState(true)\<close>, nothing called yet.\<close>

definition mounted :: "transaction list \<Rightarrow> history" where
  "mounted disk =
     \<lparr> transactions = [], loading = True, stored = disk, getFault = None, saveFault = None,
       saveCalls = [], consoleErrors = [], alerts = [], pushed = [] \<rparr>"

text \<open>
  Modelled from the spec: \<^verbatim>\<open>getTransactions\<close> of \<^verbatim>\<open>@/services/storage\<close> is not among the
  source files. The spec gives its contract, \<^verbatim>\<open>getTransactions() -> list<Transaction>\<close>
  (read all): a read returns the stored list, or rejects with the error of the fault.
\<close>

definition getTransactions :: "history \<Rightarrow> string + transaction list" where
  "getTransactions s = (case getFault s of Some e \<Rightarrow> Inl e | None \<Rightarrow> Inr (stored s))"

text \<open>
  Modelled from the spec: the write of \<^verbatim>\<open>saveTransaction\<close>, which the spec calls
  \<^emph>\<open>upsert one\<close>. The first stored record with the transaction's identifier is replaced
  by the transaction; when there is none, the transaction is added at the end.
\<close>

fun upsert :: "transaction \<Rightarrow> transaction list \<Rightarrow> transaction list" where
  "upsert t [] = [t]"
| "upsert t (r # rs) =
     (if transaction_id r = transaction_id t then t # rs else r # upsert t rs)"

text \<open>
  Modelled from the spec: \<^verbatim>\<open>saveTransaction\<close> of \<^verbatim>\<open>@/services/storage\<close> is not among the
  source files. The spec gives its contract, \<^verbatim>\<open>saveTransaction(Transaction) -> void\<close>
  (upsert one). Every call is logged; a call that fails rejects with the error of the fault
  and leaves the stored list as it is.
\<close>

definition saveTransaction :: "transaction \<Rightarrow> history \<Rightarrow> (string + unit) \<times> history" where
  "saveTransaction t s =
     (let s1 = s\<lparr>saveCalls := saveCalls s @ [t]\<rparr>
      in case saveFault s of
           Some e \<Rightarrow> (Inl e, s1)
         | None \<Rightarrow> (Inr (), s1\<lparr>stored := upsert t (stored s)\<rparr>))"

subsection \<open>Loading\<close>

text \<open>
  \<^verbatim>\<open>loadTransactions\<close>: the \<^verbatim>\<open>try\<close> sets the list, the \<^verbatim>\<open>catch\<close> only logs, the
  \<^verbatim>\<open>finally\<close> clears the loading flag on both paths.
\<close>

definition loadTransactions :: "history \<Rightarrow> history" where
  "loadTransactions s =
     (case getTransactions s of
        Inr storedTransactions \<Rightarrow> s\<lparr>transactions := storedTransactions, loading := False\<rparr>
      | Inl error \<Rightarrow>
          s\<lparr>consoleErrors := consoleErrors s @ [(''Error loading transactions:'', error)],
            loading := False\<rparr>)"

subsection \<open>Handlers\<close>

definition handleTransactionTap :: "transaction \<Rightarrow> history \<Rightarrow> history" where
  "handleTransactionTap transaction s =
     s\<lparr>pushed := pushed s @ [''/order-detail?transactionId='' @ transaction_id transaction]\<rparr>"

text \<open>
  \<^verbatim>\<open>updatedTransaction\<close> is the object spread with two fields overwritten.
\<close>

definition updatedTransaction :: "transaction \<Rightarrow> transaction" where
  "updatedTransaction transaction =
     transaction\<lparr>has_good_receipt := True, good_receipt_total := Some (total transaction)\<rparr>"

definition confirmPrompt :: "transaction \<Rightarrow> alert" where
  "confirmPrompt transaction =
     \<lparr> title = ''confirmReceipt'', message = ''confirmReceiptMessage'',
       params = [(''transactionId'', transaction_id transaction)],
       buttons = [''cancel'', ''confirm''] \<rparr>"

definition receiptConfirmedAlert :: alert where
  "receiptConfirmedAlert =
     \<lparr> title = ''confirmReceipt'', message = ''receiptConfirmed'', params = [], buttons = [] \<rparr>"

definition receiptConfirmErrorAlert :: alert where
  "receiptConfirmErrorAlert =
     \<lparr> title = ''error'', message = ''receiptConfirmError'', params = [], buttons = [] \<rparr>"

text \<open>
  The \<^verbatim>\<open>onPress\<close> of the confirm button. Only \<^verbatim>\<open>saveTransaction\<close> can throw inside the
  \<^verbatim>\<open>try\<close>: \<^verbatim>\<open>loadTransactions\<close> catches its own error.
\<close>

definition onPressConfirm :: "transaction \<Rightarrow> history \<Rightarrow> history" where
  "onPressConfirm transaction s =
     (case saveTransaction (updatedTransaction transaction) s of
        (Inl error, s1) \<Rightarrow>
          s1\<lparr>consoleErrors := consoleErrors s1 @ [(''Error confirming transaction:'', error)],
             alerts := alerts s1 @ [receiptConfirmErrorAlert]\<rparr>
      | (Inr u, s1) \<Rightarrow>
          (let s2 = loadTransactions s1
           in s2\<lparr>alerts := alerts s2 @ [receiptConfirmedAlert]\<rparr>))"

text \<open>
  The prompt has two buttons; \<open>pressed\<close> is the one the user chooses. The cancel button has
  no handler.
\<close>

datatype button = Cancel | Confirm

definition handleReceiptConfirm :: "transaction \<Rightarrow> button \<Rightarrow> history \<Rightarrow> history" where
  "handleReceiptConfirm transaction pressed s =
     (if has_good_receipt transaction then s
      else
        (let s1 = s\<lparr>alerts := alerts s @ [confirmPrompt transaction]\<rparr>
         in case pressed of Cancel \<Rightarrow> s1 | Confirm \<Rightarrow> onPressConfirm transaction s1))"

subsection \<open>Events\<close>

text \<open>
  What can happen to the view: the \<^verbatim>\<open>useEffect\<close> load after mounting, the
  \<^verbatim>\<open>useFocusEffect\<close> load on every focus, a tap on a row, and a tap on a row's pending
  indicator followed by the user's answer to the prompt.
\<close>

datatype event =
    Mounted
  | Focused
  | RowTapped transaction
  | PendingTapped transaction button

fun step :: "event \<Rightarrow> history \<Rightarrow> history" where
  "step Mounted s = loadTransactions s"
| "step Focused s = loadTransactions s"
| "step (RowTapped transaction) s = handleTransactionTap transaction s"
| "step (PendingTapped transaction pressed) s = handleReceiptConfirm transaction pressed s"

text \<open>A run of the view: the events in the order they happen.\<close>

fun run :: "event list \<Rightarrow> history \<Rightarrow> history" where
  "run [] s = s"
| "run (e # es) s = run es (step e s)"

subsection \<open>Sample data\<close>

text \<open>
  Three unconfirmed purchases on two days, one purchase whose goods were already received,
  and one record whose date string is empty.
\<close>

definition tx1 :: transaction where
  "tx1 =
     \<lparr> transaction_id = ''TX1'', date = ''2024-01-02T10:15:00'', total = 50000,
       items = [\<lparr> name = ''Beras 5kg'', quantity = 2, price = 25000 \<rparr>],
       has_good_receipt = False, good_receipt_total = None, loan_id = None \<rparr>"

definition tx2 :: transaction where
  "tx2 =
     \<lparr> transaction_id = ''TX2'', date = ''2024-01-01'', total = 12000,
       items = [\<lparr> name = ''Gula 1kg'', quantity = 1, price = 12000 \<rparr>],
       has_good_receipt = False, good_receipt_total = None, loan_id = Some ''L7'' \<rparr>"

definition tx3 :: transaction where
  "tx3 =
     \<lparr> transaction_id = ''TX3'', date = ''2024-01-02T18:40:00'', total = 7000,
       items = [\<lparr> name = ''Teh celup'', quantity = 2, price = 3500 \<rparr>],
       has_good_receipt = False, good_receipt_total = None, loan_id = None \<rparr>"

definition txReceived :: transaction where
  "txReceived =
     \<lparr> transaction_id = ''TX4'', date = ''2023-12-31'', total = 30000,
       items = [\<lparr> name = ''Minyak 1L'', quantity = 2, price = 15000 \<rparr>],
       has_good_receipt = True, good_receipt_total = Some 30000, loan_id = None \<rparr>"

definition txUndated :: transaction where
  "txUndated =
     \<lparr> transaction_id = ''TX5'', date = [], total = 9000,
       items = [], has_good_receipt = False, good_receipt_total = None, loan_id = None \<rparr>"

text \<open>The view after its first load of a store that holds \<open>tx2\<close> and \<open>tx1\<close>.\<close>

definition loadedView :: history where
  "loadedView = step Focused (step Mounted (mounted [tx2, tx1]))"

section \<open>Properties\<close>

subsection \<open>Grouping\<close>

lemma pushToGroup_keys:
  "map fst (pushToGroup d t G) = (if d \<in> fst ` set G then map fst G else map fst G @ [d])"
  by (induction G) (auto split: if_splits)

lemma pushToGroup_distinct:
  "distinct (map fst G) \<Longrightarrow> distinct (map fst (pushToGroup d t G))"
  by (simp add: pushToGroup_keys)

lemma map_of_pushToGroup:
  "map_of (pushToGroup d t G) =
     (map_of G)(d \<mapsto> (case map_of G d of None \<Rightarrow> [t] | Some g \<Rightarrow> g @ [t]))"
  by (induction G) (auto simp: fun_eq_iff)


lemma groupedTransactions_Nil: "groupedTransactions rt [] = []"
  by (simp add: groupedTransactions_def)

lemma groupedTransactions_snoc:
  "groupedTransactions rt (txs @ [t]) =
     pushToGroup (toLocaleDateString_enCA rt (date t)) t (groupedTransactions rt txs)"
  by (simp add: groupedTransactions_def)

lemma groupedTransactions_distinct: "distinct (map fst (groupedTransactions rt txs))"
  by (induction txs rule: rev_induct)
     (simp_all add: groupedTransactions_Nil groupedTransactions_snoc pushToGroup_distinct)


lemma groupedTransactions_keys:
  "set (map fst (groupedTransactions rt txs)) =
     (\<lambda>t. toLocaleDateString_enCA rt (date t)) ` set txs"
  by (induction txs rule: rev_induct)
     (auto simp: groupedTransactions_Nil groupedTransactions_snoc pushToGroup_keys)

text \<open>The group stored under a key is the sublist of the transactions with that key.\<close>

lemma map_of_groupedTransactions:
  "map_of (groupedTransactions rt txs) k =
     (if filter (\<lambda>t. toLocaleDateString_enCA rt (date t) = k) txs = [] then None
      else Some (filter (\<lambda>t. toLocaleDateString_enCA rt (date t) = k) txs))"
  by (induction txs rule: rev_induct)
     (auto simp: groupedTransactions_Nil groupedTransactions_snoc map_of_pushToGroup)

lemma groupedTransactions_group:
  assumes "(k, g) \<in> set (groupedTransactions rt txs)"
  shows "g = filter (\<lambda>t. toLocaleDateString_enCA rt (date t) = k) txs"
proof -
  from assms have "map_of (groupedTransactions rt txs) k = Some g"
    by (simp add: groupedTransactions_distinct)
  then show ?thesis
    by (auto simp: map_of_groupedTransactions split: if_splits)
qed












text \<open>
  Claim C10. Grouping is order-stable: the group stored under a key is the fetched list
  with the transactions of other dates removed, so the transactions of a group stand in the
  relative order they have in the fetched list.
\<close>

theorem groupedTransactions_stable:
  assumes "(k, g) \<in> set (groupedTransactions rt txs)"
  shows "g = filter (\<lambda>t. toLocaleDateString_enCA rt (date t) = k) txs"
  using assms by (rule groupedTransactions_group)

theorem groupedTransactions_stable_witness:
  "(''2024-01-02'', [tx1, tx3]) \<in> set (groupedTransactions utcRuntime [tx2, tx1, tx3]) \<and>
   [tx1, tx3] = filter (\<lambda>t. toLocaleDateString_enCA utcRuntime (date t) = ''2024-01-02'') [tx2, tx1, tx3]"
proof -
  have h: "(''2024-01-02'', [tx1, tx3]) \<in> set (groupedTransactions utcRuntime [tx2, tx1, tx3])"
    by code_simp
  show ?thesis
    using h groupedTransactions_stable[OF h] by simp
qed

subsection \<open>Sorting\<close>

lemma set_insertBy: "set (insertBy cmp x ys) = insert x (set ys)"
  by (induction ys) auto

lemma mset_insertBy: "mset (insertBy cmp x ys) = add_mset x (mset ys)"
  by (induction ys) auto

lemma mset_arraySort: "mset (arraySort cmp xs) = mset xs"
  by (induction xs) (simp_all add: mset_insertBy)

lemma set_arraySort: "set (arraySort cmp xs) = set xs"
  by (metis mset_arraySort set_mset_mset)

lemma distinct_arraySort: "distinct (arraySort cmp xs) = distinct xs"
  by (metis mset_arraySort mset_eq_imp_distinct_iff)

lemma sortCompare_compareDates:
  assumes "getTime rt (a @ ''T00:00:00'') \<noteq> None" and "getTime rt (b @ ''T00:00:00'') \<noteq> None"
  shows "sortCompare (compareDates rt) a b = midnight rt b - midnight rt a"
  using assms by (auto simp: sortCompare_def compareDates_def midnight_def)

lemma laterThan_midnight:
  assumes "getTime rt (a @ ''T00:00:00'') \<noteq> None" and "getTime rt (b @ ''T00:00:00'') \<noteq> None"
  shows "laterThan rt a b = (midnight rt b < midnight rt a)"
  using assms by (auto simp: laterThan_def midnight_def)

text \<open>Inserting a key with a valid time into a list in descending order keeps the order.\<close>

lemma sorted_insertBy:
  assumes "\<forall>k \<in> insert x (set ys). getTime rt (k @ ''T00:00:00'') \<noteq> None"
    and "sorted_wrt (\<lambda>a b. midnight rt b \<le> midnight rt a) ys"
  shows "sorted_wrt (\<lambda>a b. midnight rt b \<le> midnight rt a) (insertBy (compareDates rt) x ys)"
  using assms
proof (induction ys)
  case Nil
  then show ?case by simp
next
  case (Cons y ys)
  have c: "sortCompare (compareDates rt) x y = midnight rt y - midnight rt x"
    using Cons.prems(1) by (intro sortCompare_compareDates) auto
  show ?case
  proof (cases "sortCompare (compareDates rt) x y \<le> 0")
    case True
    with c have "midnight rt y \<le> midnight rt x" by simp
    with Cons.prems(2) True show ?thesis by (auto intro: order_trans)
  next
    case False
    with c have "midnight rt x \<le> midnight rt y" by simp
    moreover have "sorted_wrt (\<lambda>a b. midnight rt b \<le> midnight rt a) (insertBy (compareDates rt) x ys)"
      using Cons by auto
    ultimately show ?thesis using False Cons.prems(2) by (auto simp: set_insertBy)
  qed
qed

lemma sorted_arraySort:
  assumes "\<forall>k \<in> set ks. getTime rt (k @ ''T00:00:00'') \<noteq> None"
  shows "sorted_wrt (\<lambda>a b. midnight rt b \<le> midnight rt a) (arraySort (compareDates rt) ks)"
  using assms
proof (induction ks)
  case Nil
  then show ?case by simp
next
  case (Cons k ks)
  then show ?case by (auto intro!: sorted_insertBy simp: set_arraySort)
qed

lemma distinct_sorted_wrt_neq: "distinct xs \<Longrightarrow> sorted_wrt (\<lambda>a b. a \<noteq> b) xs"
  by (induction xs) auto

lemma sorted_wrt_conj:
  "sorted_wrt P xs \<Longrightarrow> sorted_wrt Q xs \<Longrightarrow> sorted_wrt (\<lambda>a b. P a b \<and> Q a b) xs"
  by (induction xs) auto

lemma strictly_descending_arraySort:
  assumes valid: "\<forall>k \<in> set ks. getTime rt (k @ ''T00:00:00'') \<noteq> None"
    and inj: "inj_on (\<lambda>k. getTime rt (k @ ''T00:00:00'')) (set ks)"
    and dist: "distinct ks"
  shows "sorted_wrt (laterThan rt) (arraySort (compareDates rt) ks)"
proof -
  let ?out = "arraySort (compareDates rt) ks"
  have "sorted_wrt (\<lambda>a b. midnight rt b \<le> midnight rt a \<and> a \<noteq> b) ?out"
    using sorted_arraySort[OF valid] dist
    by (intro sorted_wrt_conj distinct_sorted_wrt_neq) (simp_all add: distinct_arraySort)
  then show ?thesis
  proof (rule sorted_wrt_mono_rel[rotated])
    fix a b
    assume ab: "a \<in> set ?out" "b \<in> set ?out"
      and le: "midnight rt b \<le> midnight rt a \<and> a \<noteq> b"
    then have va: "getTime rt (a @ ''T00:00:00'') \<noteq> None"
      and vb: "getTime rt (b @ ''T00:00:00'') \<noteq> None"
      using valid by (auto simp: set_arraySort)
    from ab le inj have "getTime rt (a @ ''T00:00:00'') \<noteq> getTime rt (b @ ''T00:00:00'')"
      by (auto simp: set_arraySort inj_on_def)
    with va vb have "midnight rt a \<noteq> midnight rt b" by (auto simp: midnight_def)
    with le show "laterThan rt a b" by (simp add: laterThan_midnight[OF va vb])
  qed
qed

text \<open>
  Claim C2, as the code has it. When every date key denotes a time (the date of every
  transaction is one the platform can read) and different keys denote different local
  midnights, the sorted keys are in strictly descending chronological order, and they are
  the keys of the groups. The code does not check the dates: see the counterexample.
\<close>

theorem sortedDates_descending:
  assumes "\<forall>t \<in> set txs. getTime rt (toLocaleDateString_enCA rt (date t) @ ''T00:00:00'') \<noteq> None"
    and "inj_on (\<lambda>k. getTime rt (k @ ''T00:00:00''))
           ((\<lambda>t. toLocaleDateString_enCA rt (date t)) ` set txs)"
  shows "sorted_wrt (laterThan rt) (sortedDates rt txs) \<and>
         mset (sortedDates rt txs) = mset (map fst (groupedTransactions rt txs))"
proof -
  let ?ks = "objectKeys (groupedTransactions rt txs)"
  have keys: "set ?ks = (\<lambda>t. toLocaleDateString_enCA rt (date t)) ` set txs"
    unfolding objectKeys_def by (rule groupedTransactions_keys)
  have valid: "\<forall>k \<in> set ?ks. getTime rt (k @ ''T00:00:00'') \<noteq> None"
    using assms(1) by (auto simp: keys)
  have inj: "inj_on (\<lambda>k. getTime rt (k @ ''T00:00:00'')) (set ?ks)"
    using assms(2) by (simp only: keys)
  have dist: "distinct ?ks"
    unfolding objectKeys_def by (rule groupedTransactions_distinct)
  show ?thesis
    unfolding sortedDates_def
    using strictly_descending_arraySort[OF valid inj dist]
    by (simp add: mset_arraySort objectKeys_def)
qed

text \<open>
  The example of the claim: transactions dated 2024-01-02 and 2024-01-01, handed over in
  either order, give the sections 2024-01-02 and 2024-01-01, in this order.
\<close>

theorem sortedDates_descending_witness:
  "sorted_wrt (laterThan utcRuntime) (sortedDates utcRuntime [tx2, tx1]) \<and>
   sortedDates utcRuntime [tx2, tx1] = [''2024-01-02'', ''2024-01-01''] \<and>
   sortedDates utcRuntime [tx1, tx2] = [''2024-01-02'', ''2024-01-01'']"
proof -
  have k1: "toLocaleDateString_enCA utcRuntime (date tx1) = ''2024-01-02''"
    by code_simp
  have k2: "toLocaleDateString_enCA utcRuntime (date tx2) = ''2024-01-01''"
    by code_simp
  have t1: "getTime utcRuntime (''2024-01-02'' @ ''T00:00:00'') = Some 1704153600000"
    by code_simp
  have t2: "getTime utcRuntime (''2024-01-01'' @ ''T00:00:00'') = Some 1704067200000"
    by code_simp
  have valid: "\<forall>t \<in> set [tx2, tx1].
      getTime utcRuntime (toLocaleDateString_enCA utcRuntime (date t) @ ''T00:00:00'') \<noteq> None"
    using t1 t2 by (simp add: k1 k2)
  have inj: "inj_on (\<lambda>k. getTime utcRuntime (k @ ''T00:00:00''))
      ((\<lambda>t. toLocaleDateString_enCA utcRuntime (date t)) ` set [tx2, tx1])"
    using t1 t2 by (simp add: k1 k2)
  have a: "sortedDates utcRuntime [tx2, tx1] = [''2024-01-02'', ''2024-01-01'']"
    by code_simp
  have b: "sortedDates utcRuntime [tx1, tx2] = [''2024-01-02'', ''2024-01-01'']"
    by code_simp
  show ?thesis
    using sortedDates_descending[OF valid inj] a b by simp
qed

text \<open>
  A transaction whose date string the platform cannot read is grouped under
  \<^verbatim>\<open>Invalid Date\<close>; that key has no time, the comparator returns \<^verbatim>\<open>NaN\<close> for it, and no
  position of it among the other keys is chronological, whatever the sort does.
\<close>

theorem sortedDates_descending_counterexample:
  "\<not> sorted_wrt (laterThan utcRuntime) (sortedDates utcRuntime [txUndated, tx2])"
  by code_simp

text \<open>
  With such a key the comparator is no longer consistent, and the language leaves the
  order to the engine. The insertion sort moves nothing on the records \<open>tx2\<close>, \<open>txUndated\<close>
  and \<open>tx1\<close> in this order, so that 2024-01-01 stays in front of 2024-01-02.
\<close>

lemma sortedDates_undated_between:
  "sortedDates utcRuntime [tx2, txUndated, tx1] = [''2024-01-01'', ''Invalid Date'', ''2024-01-02'']"
  by code_simp

subsection \<open>Loading\<close>

text \<open>
  Claim C5, as the code has it. When the storage read fails, the error is logged, the
  loading flag is cleared, no alert is shown, and the list in local state is left as it
  was before the load: the \<^verbatim>\<open>catch\<close> does not touch it. It is empty after a failed load
  exactly when it was empty before, as on the first load after mounting.
\<close>

theorem loadTransactions_failure:
  assumes "getFault s = Some e"
  shows "consoleErrors (loadTransactions s) =
           consoleErrors s @ [(''Error loading transactions:'', e)] \<and>
         transactions (loadTransactions s) = transactions s \<and>
         loading (loadTransactions s) = False \<and>
         alerts (loadTransactions s) = alerts s \<and>
         transactions (loadTransactions ((mounted disk)\<lparr>getFault := Some e\<rparr>)) = []"
  using assms by (simp add: loadTransactions_def getTransactions_def mounted_def)

theorem loadTransactions_failure_witness:
  "getFault (loadedView\<lparr>getFault := Some ''read failed''\<rparr>) = Some ''read failed'' \<and>
   consoleErrors (loadTransactions (loadedView\<lparr>getFault := Some ''read failed''\<rparr>)) =
     [(''Error loading transactions:'', ''read failed'')] \<and>
   transactions (loadTransactions (loadedView\<lparr>getFault := Some ''read failed''\<rparr>)) = [tx2, tx1] \<and>
   loading (loadTransactions (loadedView\<lparr>getFault := Some ''read failed''\<rparr>)) = False \<and>
   alerts (loadTransactions (loadedView\<lparr>getFault := Some ''read failed''\<rparr>)) = []"
proof -
  have h: "getFault (loadedView\<lparr>getFault := Some ''read failed''\<rparr>) = Some ''read failed''"
    by simp
  have v: "transactions loadedView = [tx2, tx1]" "consoleErrors loadedView = []"
    "alerts loadedView = []"
    by (simp_all add: loadedView_def loadTransactions_def getTransactions_def mounted_def)
  show ?thesis
    using loadTransactions_failure[OF h, of "[]"] v by simp
qed

text \<open>
  The list is not empty after a failed load that follows a successful one: the view shows
  \<open>tx2\<close> and \<open>tx1\<close>, the read on the next focus fails, and both stay in the list.
\<close>

theorem loadTransactions_failure_counterexample:
  "getFault (loadedView\<lparr>getFault := Some ''read failed''\<rparr>) = Some ''read failed'' \<and>
   transactions (step Focused (loadedView\<lparr>getFault := Some ''read failed''\<rparr>)) \<noteq> []"
  by (simp add: loadedView_def loadTransactions_def getTransactions_def mounted_def)

subsection \<open>Navigation\<close>

text \<open>
  Claim C7. A tap on the row of a transaction is one call of \<^verbatim>\<open>router.push\<close> with the
  order-detail route and the transaction's identifier as the value of \<^verbatim>\<open>transactionId\<close>;
  nothing else changes.
\<close>

theorem handleTransactionTap_pushes:
  "step (RowTapped tx) s = handleTransactionTap tx s \<and>
   pushed (handleTransactionTap tx s) =
     pushed s @ [''/order-detail?transactionId='' @ transaction_id tx] \<and>
   (handleTransactionTap tx s)\<lparr>pushed := pushed s\<rparr> = s"
  by (simp add: handleTransactionTap_def)

theorem handleTransactionTap_pushes_witness:
  "pushed (step (RowTapped tx1) loadedView) = [''/order-detail?transactionId=TX1'']"
proof -
  have "pushed loadedView = []"
    by (simp add: loadedView_def loadTransactions_def getTransactions_def mounted_def)
  then show ?thesis
    using handleTransactionTap_pushes[of tx1 loadedView] by (simp add: tx1_def)
qed

subsection \<open>Receipt confirmation\<close>

lemma find_upsert:
  "find (\<lambda>r. transaction_id r = transaction_id t) (upsert t rs) = Some t"
  by (induction rs) auto

lemma filter_upsert:
  "filter (\<lambda>r. transaction_id r \<noteq> transaction_id t) (upsert t rs) =
     filter (\<lambda>r. transaction_id r \<noteq> transaction_id t) rs"
  by (induction rs) auto

lemma updatedTransaction_id: "transaction_id (updatedTransaction tx) = transaction_id tx"
  by (simp add: updatedTransaction_def)

lemma confirm_unfold:
  assumes "\<not> has_good_receipt tx"
  shows "handleReceiptConfirm tx Confirm s =
           onPressConfirm tx (s\<lparr>alerts := alerts s @ [confirmPrompt tx]\<rparr>)"
  using assms by (simp add: handleReceiptConfirm_def)

lemma onPressConfirm_saved:
  assumes "saveFault s = None"
  shows "onPressConfirm tx s =
     (let s2 = loadTransactions
                 (s\<lparr>saveCalls := saveCalls s @ [updatedTransaction tx],
                    stored := upsert (updatedTransaction tx) (stored s)\<rparr>)
      in s2\<lparr>alerts := alerts s2 @ [receiptConfirmedAlert]\<rparr>)"
  using assms by (simp add: onPressConfirm_def saveTransaction_def)

lemma onPressConfirm_failed:
  assumes "saveFault s = Some e"
  shows "onPressConfirm tx s =
     s\<lparr>saveCalls := saveCalls s @ [updatedTransaction tx],
       consoleErrors := consoleErrors s @ [(''Error confirming transaction:'', e)],
       alerts := alerts s @ [receiptConfirmErrorAlert]\<rparr>"
  using assms by (simp add: onPressConfirm_def saveTransaction_def)

lemma loadTransactions_stored: "stored (loadTransactions s) = stored s"
  by (simp add: loadTransactions_def split: sum.splits)

lemma loadTransactions_saveCalls: "saveCalls (loadTransactions s) = saveCalls s"
  by (simp add: loadTransactions_def split: sum.splits)

lemma loadTransactions_transactions:
  "transactions (loadTransactions s) = (if getFault s = None then stored s else transactions s)"
  by (auto simp: loadTransactions_def getTransactions_def split: option.splits)

text \<open>
  Claim C3. For a transaction whose receipt flag is false, after the user confirms and
  the save and the re-fetch succeed, the record stored under the transaction's identifier is
  the transaction with \<^verbatim>\<open>has_good_receipt\<close> true and \<^verbatim>\<open>good_receipt_total\<close> equal to its
  total; the list on display is the stored list; and the records of every other identifier
  are what they were, in storage and (for a view that showed the stored list) on display.
\<close>

theorem handleReceiptConfirm_success:
  assumes "\<not> has_good_receipt tx" and "saveFault s = None" and "getFault s = None"
  shows "find (\<lambda>r. transaction_id r = transaction_id tx)
           (stored (handleReceiptConfirm tx Confirm s)) = Some (updatedTransaction tx) \<and>
         has_good_receipt (updatedTransaction tx) \<and>
         good_receipt_total (updatedTransaction tx) = Some (total tx) \<and>
         transactions (handleReceiptConfirm tx Confirm s) =
           stored (handleReceiptConfirm tx Confirm s) \<and>
         filter (\<lambda>r. transaction_id r \<noteq> transaction_id tx)
           (stored (handleReceiptConfirm tx Confirm s)) =
           filter (\<lambda>r. transaction_id r \<noteq> transaction_id tx) (stored s) \<and>
         (transactions s = stored s \<longrightarrow>
            filter (\<lambda>r. transaction_id r \<noteq> transaction_id tx)
              (transactions (handleReceiptConfirm tx Confirm s)) =
            filter (\<lambda>r. transaction_id r \<noteq> transaction_id tx) (transactions s))"
proof -
  let ?u = "updatedTransaction tx"
  have st: "stored (handleReceiptConfirm tx Confirm s) = upsert ?u (stored s)"
    using assms
    by (simp add: confirm_unfold onPressConfirm_saved Let_def loadTransactions_stored)
  have tr: "transactions (handleReceiptConfirm tx Confirm s) = upsert ?u (stored s)"
    using assms
    by (simp add: confirm_unfold onPressConfirm_saved Let_def loadTransactions_transactions)
  have f: "find (\<lambda>r. transaction_id r = transaction_id tx) (upsert ?u (stored s)) = Some ?u"
    using find_upsert[of ?u "stored s"] by (simp add: updatedTransaction_id)
  have o: "filter (\<lambda>r. transaction_id r \<noteq> transaction_id tx) (upsert ?u (stored s)) =
           filter (\<lambda>r. transaction_id r \<noteq> transaction_id tx) (stored s)"
    using filter_upsert[of ?u "stored s"] by (simp add: updatedTransaction_id)
  have u: "has_good_receipt ?u \<and> good_receipt_total ?u = Some (total tx)"
    by (simp add: updatedTransaction_def)
  show ?thesis
    using st tr f o u by simp
qed

text \<open>
  The example of the claim: confirming \<open>TX1\<close>, total 50000, stores the record with
  \<^verbatim>\<open>has_good_receipt=true\<close> and \<^verbatim>\<open>good_receipt_total=50000\<close>, and leaves \<open>TX2\<close> alone.
\<close>

theorem handleReceiptConfirm_success_witness:
  "find (\<lambda>r. transaction_id r = ''TX1'') (stored (handleReceiptConfirm tx1 Confirm loadedView)) =
     Some (tx1\<lparr>has_good_receipt := True, good_receipt_total := Some 50000\<rparr>) \<and>
   transactions (handleReceiptConfirm tx1 Confirm loadedView) =
     stored (handleReceiptConfirm tx1 Confirm loadedView) \<and>
   filter (\<lambda>r. transaction_id r \<noteq> ''TX1'') (stored (handleReceiptConfirm tx1 Confirm loadedView)) =
     [tx2]"
proof -
  have h1: "\<not> has_good_receipt tx1"
    by (simp add: tx1_def)
  have h2: "saveFault loadedView = None" and h3: "getFault loadedView = None"
    by (simp_all add: loadedView_def loadTransactions_def getTransactions_def mounted_def)
  have v: "stored loadedView = [tx2, tx1]"
    by (simp add: loadedView_def loadTransactions_def getTransactions_def mounted_def)
  have i: "transaction_id tx1 = ''TX1''" "transaction_id tx2 = ''TX2''" "total tx1 = 50000"
    by (simp_all add: tx1_def tx2_def)
  show ?thesis
    using handleReceiptConfirm_success[OF h1 h2 h3] v i
    by (simp add: updatedTransaction_def)
qed

text \<open>
  Claim C4. For a transaction whose receipt flag is already true the handler returns at
  once, whatever the user would answer: no prompt, no save, and the same local state and
  storage as before.
\<close>

theorem handleReceiptConfirm_already_confirmed:
  assumes "has_good_receipt tx"
  shows "handleReceiptConfirm tx pressed s = s \<and>
         alerts (handleReceiptConfirm tx pressed s) = alerts s \<and>
         saveCalls (handleReceiptConfirm tx pressed s) = saveCalls s \<and>
         transactions (handleReceiptConfirm tx pressed s) = transactions s \<and>
         stored (handleReceiptConfirm tx pressed s) = stored s"
  using assms by (simp add: handleReceiptConfirm_def)

theorem handleReceiptConfirm_already_confirmed_witness:
  "has_good_receipt txReceived \<and>
   handleReceiptConfirm txReceived Confirm (mounted [txReceived]) = mounted [txReceived]"
proof -
  have h: "has_good_receipt txReceived"
    by (simp add: txReceived_def)
  show ?thesis
    using h handleReceiptConfirm_already_confirmed[OF h, of Confirm "mounted [txReceived]"]
    by simp
qed



text \<open>
  Claim C9. The record handed to \<^verbatim>\<open>saveTransaction\<close> in the confirmation flow differs from
  the transaction in \<^verbatim>\<open>has_good_receipt\<close> and \<^verbatim>\<open>good_receipt_total\<close> only: identifier, date,
  total, items and loan identifier are the transaction's, and putting the two fields back
  gives the transaction.
\<close>

theorem updatedTransaction_frame:
  assumes "\<not> has_good_receipt tx"
  shows "\<exists>w. saveCalls (handleReceiptConfirm tx Confirm s) = saveCalls s @ [w] \<and>
           transaction_id w = transaction_id tx \<and> date w = date tx \<and> total w = total tx \<and>
           items w = items tx \<and> loan_id w = loan_id tx \<and>
           w\<lparr>has_good_receipt := has_good_receipt tx,
             good_receipt_total := good_receipt_total tx\<rparr> = tx"
proof (cases "saveFault s")
  case None
  then show ?thesis
    using assms
    by (simp add: confirm_unfold onPressConfirm_saved Let_def loadTransactions_saveCalls
        updatedTransaction_def)
next
  case (Some e)
  then show ?thesis
    using assms by (simp add: confirm_unfold onPressConfirm_failed updatedTransaction_def)
qed

theorem updatedTransaction_frame_witness:
  "\<exists>w. saveCalls (handleReceiptConfirm tx2 Confirm loadedView) = [w] \<and>
        transaction_id w = ''TX2'' \<and> date w = ''2024-01-01'' \<and> total w = 12000 \<and>
        items w = [\<lparr> name = ''Gula 1kg'', quantity = 1, price = 12000 \<rparr>] \<and>
        loan_id w = Some ''L7''"
proof -
  have h: "\<not> has_good_receipt tx2"
    by (simp add: tx2_def)
  have v: "saveCalls loadedView = []"
    by (simp add: loadedView_def loadTransactions_def getTransactions_def mounted_def)
  show ?thesis
    using updatedTransaction_frame[OF h, of loadedView] v
    by (auto simp: tx2_def)
qed

subsection \<open>Every step of the view\<close>

text \<open>The effect of one step on the saves issued, on storage and on the list.\<close>

lemma step_effect:
  "((saveCalls (step e s) = saveCalls s \<and> stored (step e s) = stored s) \<or>
    (\<exists>tx. e = PendingTapped tx Confirm \<and> \<not> has_good_receipt tx \<and>
       saveCalls (step e s) = saveCalls s @ [updatedTransaction tx] \<and>
       has_good_receipt (updatedTransaction tx) \<and>
       good_receipt_total (updatedTransaction tx) = Some (total tx) \<and>
       (stored (step e s) = stored s \<or>
        stored (step e s) = upsert (updatedTransaction tx) (stored s)))) \<and>
   (transactions (step e s) = transactions s \<or> transactions (step e s) = stored (step e s))"
proof (cases e)
  case Mounted
  then show ?thesis
    by (simp add: loadTransactions_stored loadTransactions_saveCalls loadTransactions_transactions)
next
  case Focused
  then show ?thesis
    by (simp add: loadTransactions_stored loadTransactions_saveCalls loadTransactions_transactions)
next
  case (RowTapped tx)
  then show ?thesis
    by (simp add: handleTransactionTap_def)
next
  case (PendingTapped tx pressed)
  show ?thesis
  proof (cases "has_good_receipt tx")
    case True
    with PendingTapped show ?thesis
      by (simp add: handleReceiptConfirm_def)
  next
    case False
    show ?thesis
    proof (cases pressed)
      case Cancel
      with False PendingTapped show ?thesis
        by (simp add: handleReceiptConfirm_def)
    next
      case Confirm
      have u: "has_good_receipt (updatedTransaction tx) \<and>
               good_receipt_total (updatedTransaction tx) = Some (total tx)"
        by (simp add: updatedTransaction_def)
      show ?thesis
      proof (cases "saveFault s")
        case None
        with False PendingTapped Confirm u show ?thesis
          by (simp add: confirm_unfold onPressConfirm_saved Let_def loadTransactions_stored
              loadTransactions_saveCalls loadTransactions_transactions)
      next
        case (Some err)
        with False PendingTapped Confirm u show ?thesis
          by (simp add: confirm_unfold onPressConfirm_failed)
      qed
    qed
  qed
qed

text \<open>
  Claim C8. In every step of the view, either no save is issued and storage stays as it
  is, or the step is the user's answer \<open>Confirm\<close> to the prompt of a transaction whose flag
  is false; that step issues one save, of the transaction with the flag set and the total
  copied into the confirmed total, and storage then holds that record or, when the save
  fails, is unchanged. The list in local state is never edited: after a step it is what it
  was or what storage holds.
\<close>

theorem receipt_set_only_by_confirmation:
  "((saveCalls (step e s) = saveCalls s \<and> stored (step e s) = stored s) \<or>
    (\<exists>tx. e = PendingTapped tx Confirm \<and> \<not> has_good_receipt tx \<and>
       saveCalls (step e s) = saveCalls s @ [updatedTransaction tx] \<and>
       has_good_receipt (updatedTransaction tx) \<and>
       good_receipt_total (updatedTransaction tx) = Some (total tx) \<and>
       (stored (step e s) = stored s \<or>
        stored (step e s) = upsert (updatedTransaction tx) (stored s)))) \<and>
   (transactions (step e s) = transactions s \<or> transactions (step e s) = stored (step e s))"
  by (rule step_effect)

theorem receipt_set_only_by_confirmation_witness:
  "saveCalls (step (PendingTapped tx1 Confirm) loadedView) =
     [tx1\<lparr>has_good_receipt := True, good_receipt_total := Some 50000\<rparr>] \<and>
   stored (step (PendingTapped tx1 Confirm) loadedView) =
     [tx2, tx1\<lparr>has_good_receipt := True, good_receipt_total := Some 50000\<rparr>] \<and>
   transactions (step (PendingTapped tx1 Confirm) loadedView) =
     stored (step (PendingTapped tx1 Confirm) loadedView) \<and>
   saveCalls (step (PendingTapped tx1 Cancel) loadedView) = [] \<and>
   stored (step (PendingTapped tx1 Cancel) loadedView) = [tx2, tx1]"
proof -
  have v: "saveCalls loadedView = []" "stored loadedView = [tx2, tx1]"
    "transactions loadedView = [tx2, tx1]" "saveFault loadedView = None"
    "getFault loadedView = None"
    by (simp_all add: loadedView_def loadTransactions_def getTransactions_def mounted_def)
  have n: "\<not> has_good_receipt tx1" "total tx1 = 50000"
    "transaction_id tx2 \<noteq> transaction_id tx1"
    by (simp_all add: tx1_def tx2_def)
  have c: "saveCalls (step (PendingTapped tx1 Confirm) loadedView) =
             [tx1\<lparr>has_good_receipt := True, good_receipt_total := Some 50000\<rparr>]"
    "stored (step (PendingTapped tx1 Confirm) loadedView) =
             [tx2, tx1\<lparr>has_good_receipt := True, good_receipt_total := Some 50000\<rparr>]"
    using v n
    by (simp_all add: confirm_unfold onPressConfirm_saved Let_def loadTransactions_stored
        loadTransactions_saveCalls updatedTransaction_def)
  have d: "saveCalls (step (PendingTapped tx1 Cancel) loadedView) = []"
    "stored (step (PendingTapped tx1 Cancel) loadedView) = [tx2, tx1]"
    using v n by (simp_all add: handleReceiptConfirm_def)
  have t: "transactions (step (PendingTapped tx1 Confirm) loadedView) \<noteq> transactions loadedView"
    using v n
    by (simp add: confirm_unfold onPressConfirm_saved Let_def loadTransactions_transactions
        updatedTransaction_def tx1_def)
  show ?thesis
    using receipt_set_only_by_confirmation[of "PendingTapped tx1 Confirm" loadedView] c d t
    by simp
qed

text \<open>
  Over a whole run: a record found in storage after the run was there before it, or it is
  the confirmed copy of a transaction with a false flag for which the user pressed
  \<open>Confirm\<close> during the run.
\<close>

lemma set_upsert: "set (upsert t rs) \<subseteq> insert t (set rs)"
  by (induction rs) auto

lemma step_stored:
  assumes "r \<in> set (stored (step e s))"
  shows "r \<in> set (stored s) \<or>
         (\<exists>tx. e = PendingTapped tx Confirm \<and> \<not> has_good_receipt tx \<and> r = updatedTransaction tx)"
proof -
  from step_effect[of e s]
  consider "stored (step e s) = stored s"
    | tx where "e = PendingTapped tx Confirm" "\<not> has_good_receipt tx"
        "stored (step e s) = upsert (updatedTransaction tx) (stored s)"
    by auto
  then show ?thesis
  proof cases
    case 1
    with assms show ?thesis by simp
  next
    case 2
    with assms set_upsert[of "updatedTransaction tx" "stored s"] show ?thesis by auto
  qed
qed

corollary run_stored:
  assumes "r \<in> set (stored (run es s))"
  shows "r \<in> set (stored s) \<or>
         (\<exists>tx. PendingTapped tx Confirm \<in> set es \<and> \<not> has_good_receipt tx \<and>
               r = updatedTransaction tx)"
  using assms
proof (induction es arbitrary: s)
  case Nil
  then show ?case by simp
next
  case (Cons e es)
  from Cons.prems have "r \<in> set (stored (run es (step e s)))" by simp
  from Cons.IH[OF this] show ?case
  proof
    assume "r \<in> set (stored (step e s))"
    from step_stored[OF this] show ?thesis by auto
  next
    assume "\<exists>tx. PendingTapped tx Confirm \<in> set es \<and> \<not> has_good_receipt tx \<and>
               r = updatedTransaction tx"
    then show ?thesis by auto
  qed
qed

end
